theory Spec2Isabelle
  imports Main "HOL-Library.Sublist"
begin

section \<open>The events page: data model\<close>

text \<open>
  The page \<^verbatim>\<open>packages/eventcatalog/pages/events.tsx\<close> lists the events of a catalog and
  narrows the list by service, by domain and by a search text. An event is used through
  four properties only: \<^verbatim>\<open>name\<close>, \<^verbatim>\<open>domain\<close>, \<^verbatim>\<open>producerNames\<close> and
  \<^verbatim>\<open>consumerNames\<close>.
\<close>

text \<open>
  Modelled from the spec: the type \<^verbatim>\<open>Event\<close>, which the page imports from
  \<^verbatim>\<open>@eventcatalog/types\<close> and whose declaration is not in the page's file. The
  specification's data model gives an event a name, a single domain label, a list of
  producer names and a list of consumer names. The record is extensible, so every
  statement below also covers events that carry further properties (version, summary, ...).

  A string is the list of its code units; a \<^typ>\<open>char\<close> holds the code units below 256
  (ASCII and Latin-1).
\<close>

record Event =
  name :: string
  domain :: string
  producerNames :: "string list"
  consumerNames :: "string list"

text \<open>
  The React state \<^verbatim>\<open>useState({ services: [], domains: [] })\<close>. The second piece of
  state, \<^verbatim>\<open>useState('')\<close> for the search text, is a plain string and is passed
  next to this record wherever the page reads it.
\<close>

record SelectedFilters =
  services :: "string list"
  domains :: "string list"

text \<open>The \<^verbatim>\<open>type\<close> argument of the checkbox handler: the \<^verbatim>\<open>id\<close> of a filter section.\<close>

datatype FilterType = ServicesSection | DomainsSection

section \<open>The JavaScript operations the page calls\<close>

text \<open>\<^verbatim>\<open>Array.prototype.indexOf\<close>: the first index holding the value, \<open>-1\<close> when absent.\<close>

fun indexOf :: "'a list \<Rightarrow> 'a \<Rightarrow> int" where
  "indexOf [] v = -1"
| "indexOf (x # xs) v =
     (if x = v then 0
      else (let r = indexOf xs v in if r = -1 then -1 else r + 1))"

text \<open>Truthiness: an array is an object and always truthy; a string is truthy unless empty.\<close>

definition truthy_array :: "'a list \<Rightarrow> bool" where
  "truthy_array xs = True"

definition truthy_string :: "string \<Rightarrow> bool" where
  "truthy_string s = (s \<noteq> [])"

text \<open>
  \<^verbatim>\<open>String.prototype.toLowerCase\<close> on code units below 256: the letters A to Z and the
  Latin-1 capitals 192 to 222 (without the multiplication sign, 215) move up by 32, every
  other code unit stays.
\<close>

definition toLowerCaseChar :: "char \<Rightarrow> char" where
  "toLowerCaseChar c =
     (let n = (of_char c :: nat)
      in if (65 \<le> n \<and> n \<le> 90) \<or> (192 \<le> n \<and> n \<le> 222 \<and> n \<noteq> 215)
         then char_of (n + 32) else c)"

definition toLowerCase :: "string \<Rightarrow> string" where
  "toLowerCase s = map toLowerCaseChar s"

text \<open>
  \<^verbatim>\<open>String.prototype.includes\<close>: does the search string occur at some position?
  (The name carries a suffix because \<open>includes\<close> is a keyword of Isabelle.)
\<close>

fun includes_str :: "string \<Rightarrow> string \<Rightarrow> bool" where
  "includes_str [] sub = (sub = [])"
| "includes_str (c # cs) sub = (prefix sub (c # cs) \<or> includes_str cs sub)"

section \<open>Filter-state mutation\<close>

text \<open>
  \<^verbatim>\<open>selectedFilters[type]\<close> and \<^verbatim>\<open>{ ...selectedFilters, [type]: newFilters }\<close>.
\<close>

fun selected :: "FilterType \<Rightarrow> SelectedFilters \<Rightarrow> string list" where
  "selected ServicesSection selectedFilters = services selectedFilters"
| "selected DomainsSection selectedFilters = domains selectedFilters"

fun setSelected :: "FilterType \<Rightarrow> string list \<Rightarrow> SelectedFilters \<Rightarrow> SelectedFilters" where
  "setSelected ServicesSection newFilters selectedFilters =
     selectedFilters\<lparr>services := newFilters\<rparr>"
| "setSelected DomainsSection newFilters selectedFilters =
     selectedFilters\<lparr>domains := newFilters\<rparr>"

text \<open>
  \<^verbatim>\<open>handleFilterSelection(option, type, event)\<close>, with \<^verbatim>\<open>option.value\<close> and
  \<^verbatim>\<open>event.target.checked\<close> as arguments; the new state is returned.
\<close>

definition handleFilterSelection ::
  "string \<Rightarrow> FilterType \<Rightarrow> bool \<Rightarrow> SelectedFilters \<Rightarrow> SelectedFilters" where
  "handleFilterSelection optionValue type checked selectedFilters =
     (if checked
      then (let newFilters = selected type selectedFilters @ [optionValue]
            in setSelected type newFilters selectedFilters)
      else (let newFilters = filter (\<lambda>v. v \<noteq> optionValue) (selected type selectedFilters)
            in setSelected type newFilters selectedFilters))"

section \<open>The filter engine\<close>

definition hasConsumersFromFilters :: "SelectedFilters \<Rightarrow> 'a Event_scheme \<Rightarrow> bool" where
  "hasConsumersFromFilters selectedFilters event =
     list_ex (\<lambda>consumerId. indexOf (services selectedFilters) consumerId > -1)
       (consumerNames event)"

definition hasProducersFromFilters :: "SelectedFilters \<Rightarrow> 'a Event_scheme \<Rightarrow> bool" where
  "hasProducersFromFilters selectedFilters event =
     list_ex (\<lambda>producerId. indexOf (services selectedFilters) producerId > -1)
       (producerNames event)"

text \<open>The three narrowing passes, each on the output of the one before.\<close>

definition servicePass :: "SelectedFilters \<Rightarrow> 'a Event_scheme list \<Rightarrow> 'a Event_scheme list" where
  "servicePass selectedFilters filteredEvents =
     (if length (services selectedFilters) > 0
      then filter (\<lambda>event. hasConsumersFromFilters selectedFilters event
                          \<or> hasProducersFromFilters selectedFilters event) filteredEvents
      else filteredEvents)"

definition domainPass :: "SelectedFilters \<Rightarrow> 'a Event_scheme list \<Rightarrow> 'a Event_scheme list" where
  "domainPass selectedFilters filteredEvents =
     (if length (domains selectedFilters) > 0
      then filter (\<lambda>event. indexOf (domains selectedFilters) (domain event) > -1) filteredEvents
      else filteredEvents)"

definition textPass :: "string \<Rightarrow> 'a Event_scheme list \<Rightarrow> 'a Event_scheme list" where
  "textPass searchFilter filteredEvents =
     (if truthy_string searchFilter
      then filter (\<lambda>event. includes_str (toLowerCase (name event)) (toLowerCase searchFilter))
             filteredEvents
      else filteredEvents)"

text \<open>The guard of the first line of \<^verbatim>\<open>getFilteredEvents\<close>.\<close>

definition earlyReturnGuard :: "SelectedFilters \<Rightarrow> string \<Rightarrow> bool" where
  "earlyReturnGuard selectedFilters searchFilter =
     (\<not> truthy_array (services selectedFilters) \<and> \<not> truthy_string searchFilter
      \<and> \<not> truthy_array (domains selectedFilters))"

definition getFilteredEvents ::
  "'a Event_scheme list \<Rightarrow> SelectedFilters \<Rightarrow> string \<Rightarrow> 'a Event_scheme list" where
  "getFilteredEvents events selectedFilters searchFilter =
     (if earlyReturnGuard selectedFilters searchFilter then events
      else textPass searchFilter (domainPass selectedFilters (servicePass selectedFilters events)))"

definition filtersApplied :: "SelectedFilters \<Rightarrow> string \<Rightarrow> bool" where
  "filtersApplied selectedFilters searchFilter =
     (truthy_string searchFilter \<or> length (services selectedFilters) > 0)"

section \<open>The engine as the JavaScript runtime runs it\<close>

text \<open>
  The TypeScript types are erased when the page runs: an event object may lack any of
  its properties, and calling a method on \<^verbatim>\<open>undefined\<close> throws a TypeError. The
  runtime model keeps this: a property is \<open>None\<close> when it is undefined, a callback
  returns an error or a boolean, and \<^verbatim>\<open>Array.prototype.filter\<close> stops at the first
  callback that throws.
\<close>

datatype error = TypeError

record RuntimeEvent =
  nameProp :: "string option"
  domainProp :: "string option"
  producerNamesProp :: "string list option"
  consumerNamesProp :: "string list option"

fun filter_rt :: "('a \<Rightarrow> error + bool) \<Rightarrow> 'a list \<Rightarrow> error + 'a list" where
  "filter_rt callback [] = Inr []"
| "filter_rt callback (x # xs) =
     (case callback x of
        Inl err \<Rightarrow> Inl err
      | Inr keep \<Rightarrow>
          (case filter_rt callback xs of
             Inl err \<Rightarrow> Inl err
           | Inr kept \<Rightarrow> Inr (if keep then x # kept else kept)))"

text \<open>
  The service callback reads \<^verbatim>\<open>event.consumerNames.some\<close> first and
  \<^verbatim>\<open>event.producerNames.some\<close> second, both before combining them.
\<close>

definition serviceCallback_rt :: "SelectedFilters \<Rightarrow> RuntimeEvent \<Rightarrow> error + bool" where
  "serviceCallback_rt selectedFilters event =
     (case consumerNamesProp event of
        None \<Rightarrow> Inl TypeError
      | Some consumers \<Rightarrow>
          (let hasConsumers =
                 list_ex (\<lambda>consumerId. indexOf (services selectedFilters) consumerId > -1) consumers
           in case producerNamesProp event of
                None \<Rightarrow> Inl TypeError
              | Some producers \<Rightarrow>
                  Inr (hasConsumers
                       \<or> list_ex (\<lambda>producerId. indexOf (services selectedFilters) producerId > -1)
                            producers)))"

text \<open>
  \<^verbatim>\<open>domainFilters.indexOf(undefined)\<close> does not throw: no string is strictly equal to
  \<^verbatim>\<open>undefined\<close>, so the index is \<open>-1\<close>.
\<close>

definition domainCallback_rt :: "SelectedFilters \<Rightarrow> RuntimeEvent \<Rightarrow> error + bool" where
  "domainCallback_rt selectedFilters event =
     (case domainProp event of
        None \<Rightarrow> Inr False
      | Some d \<Rightarrow> Inr (indexOf (domains selectedFilters) d > -1))"

definition textCallback_rt :: "string \<Rightarrow> RuntimeEvent \<Rightarrow> error + bool" where
  "textCallback_rt searchFilter event =
     (case nameProp event of
        None \<Rightarrow> Inl TypeError
      | Some n \<Rightarrow> Inr (includes_str (toLowerCase n) (toLowerCase searchFilter)))"

definition getFilteredEvents_rt ::
  "RuntimeEvent list \<Rightarrow> SelectedFilters \<Rightarrow> string \<Rightarrow> error + RuntimeEvent list" where
  "getFilteredEvents_rt events selectedFilters searchFilter =
     (if earlyReturnGuard selectedFilters searchFilter then Inr events
      else
        (case (if length (services selectedFilters) > 0
               then filter_rt (serviceCallback_rt selectedFilters) events
               else Inr events) of
           Inl err \<Rightarrow> Inl err
         | Inr afterServices \<Rightarrow>
             (case (if length (domains selectedFilters) > 0
                    then filter_rt (domainCallback_rt selectedFilters) afterServices
                    else Inr afterServices) of
                Inl err \<Rightarrow> Inl err
              | Inr afterDomains \<Rightarrow>
                  (if truthy_string searchFilter
                   then filter_rt (textCallback_rt searchFilter) afterDomains
                   else Inr afterDomains))))"

text \<open>
  A well-formed event has a name string, a domain string and both name lists; it is then
  the runtime image of a typed event. \<open>toTyped\<close> reads a runtime event back; a missing
  property reads as empty, which no statement about well-formed events depends on.
\<close>

definition wellFormed :: "RuntimeEvent \<Rightarrow> bool" where
  "wellFormed event =
     (nameProp event \<noteq> None \<and> domainProp event \<noteq> None
      \<and> producerNamesProp event \<noteq> None \<and> consumerNamesProp event \<noteq> None)"

definition toRuntime :: "Event \<Rightarrow> RuntimeEvent" where
  "toRuntime event =
     \<lparr>nameProp = Some (name event), domainProp = Some (domain event),
      producerNamesProp = Some (producerNames event),
      consumerNamesProp = Some (consumerNames event)\<rparr>"

definition toTyped :: "RuntimeEvent \<Rightarrow> Event" where
  "toTyped event =
     \<lparr>name = (case nameProp event of Some n \<Rightarrow> n | None \<Rightarrow> []),
      domain = (case domainProp event of Some d \<Rightarrow> d | None \<Rightarrow> []),
      producerNames = (case producerNamesProp event of Some ps \<Rightarrow> ps | None \<Rightarrow> []),
      consumerNames = (case consumerNamesProp event of Some cs \<Rightarrow> cs | None \<Rightarrow> [])\<rparr>"

section \<open>The engine as the specification words it\<close>

text \<open>
  The specification describes three dimension filters and their conjunction. They are
  written here from its words, to be compared with the code's passes: the service filter
  keeps an event that some selected service produces or consumes, the domain filter one
  whose domain is selected, the text filter one whose lower-cased name contains the
  lower-cased search text; a dimension whose constraint is empty does not constrain.
\<close>

definition serviceFilter_spec :: "string list \<Rightarrow> 'a Event_scheme list \<Rightarrow> 'a Event_scheme list" where
  "serviceFilter_spec S es =
     filter (\<lambda>e. (\<exists>p \<in> set (producerNames e). p \<in> set S)
                \<or> (\<exists>c \<in> set (consumerNames e). c \<in> set S)) es"

definition domainFilter_spec :: "string list \<Rightarrow> 'a Event_scheme list \<Rightarrow> 'a Event_scheme list" where
  "domainFilter_spec D es = filter (\<lambda>e. domain e \<in> set D) es"

definition textFilter_spec :: "string \<Rightarrow> 'a Event_scheme list \<Rightarrow> 'a Event_scheme list" where
  "textFilter_spec t es = filter (\<lambda>e. sublist (toLowerCase t) (toLowerCase (name e))) es"

definition computeVisible_spec ::
  "'a Event_scheme list \<Rightarrow> SelectedFilters \<Rightarrow> string \<Rightarrow> 'a Event_scheme list" where
  "computeVisible_spec es sf t =
     filter (\<lambda>e. (services sf = [] \<or> e \<in> set (serviceFilter_spec (services sf) es))
                \<and> (domains sf = [] \<or> e \<in> set (domainFilter_spec (domains sf) es))
                \<and> (t = [] \<or> e \<in> set (textFilter_spec t es))) es"

text \<open>\<^verbatim>\<open>getFilteredEvents\<close> with its first line, the early return, removed.\<close>

definition getFilteredEvents_noEarlyReturn ::
  "'a Event_scheme list \<Rightarrow> SelectedFilters \<Rightarrow> string \<Rightarrow> 'a Event_scheme list" where
  "getFilteredEvents_noEarlyReturn events selectedFilters searchFilter =
     textPass searchFilter (domainPass selectedFilters (servicePass selectedFilters events))"

section \<open>The example catalog\<close>

definition orderCreated :: Event where
  "orderCreated =
     \<lparr>name = ''OrderCreated'', domain = ''Orders'',
      producerNames = [''OrderService''], consumerNames = [''BillingService'']\<rparr>"

definition orderShipped :: Event where
  "orderShipped =
     \<lparr>name = ''OrderShipped'', domain = ''Shipping'',
      producerNames = [''ShippingService''], consumerNames = []\<rparr>"

definition exampleEvents :: "Event list" where
  "exampleEvents = [orderCreated, orderShipped]"

definition noFilters :: SelectedFilters where
  "noFilters = \<lparr>services = [], domains = []\<rparr>"

section \<open>Facts about the JavaScript operations\<close>

lemma indexOf_ge: "- 1 \<le> indexOf xs v"
  by (induction xs) (auto simp: Let_def)

lemma indexOf_found: "(- 1 < indexOf xs v) = (v \<in> set xs)"
proof (induction xs)
  case Nil
  show ?case by simp
next
  case (Cons x xs)
  have "- 1 \<le> indexOf xs v" by (rule indexOf_ge)
  with Cons show ?case by (auto simp: Let_def)
qed

lemma includes_str_sublist: "includes_str s sub = sublist sub s"
  by (induction s) (auto simp: sublist_Cons_right)

lemma toLowerCase_Nil_iff: "(toLowerCase s = []) = (s = [])"
  by (simp add: toLowerCase_def)

lemma hasConsumersFromFilters_iff:
  "hasConsumersFromFilters sf e = (\<exists>c \<in> set (consumerNames e). c \<in> set (services sf))"
  by (simp add: hasConsumersFromFilters_def list_ex_iff indexOf_found)

lemma hasProducersFromFilters_iff:
  "hasProducersFromFilters sf e = (\<exists>p \<in> set (producerNames e). p \<in> set (services sf))"
  by (simp add: hasProducersFromFilters_def list_ex_iff indexOf_found)

section \<open>Each pass is a filter by a predicate on the event alone\<close>

lemma servicePass_filter:
  "servicePass sf xs =
     filter (\<lambda>e. services sf = [] \<or> (\<exists>p \<in> set (producerNames e). p \<in> set (services sf))
                \<or> (\<exists>c \<in> set (consumerNames e). c \<in> set (services sf))) xs"
  by (cases "services sf = []")
     (auto simp: servicePass_def hasConsumersFromFilters_iff hasProducersFromFilters_iff
           intro: filter_cong)

lemma domainPass_filter:
  "domainPass sf xs = filter (\<lambda>e. domains sf = [] \<or> domain e \<in> set (domains sf)) xs"
  by (cases "domains sf = []") (simp_all add: domainPass_def indexOf_found)

lemma textPass_filter:
  "textPass s xs = filter (\<lambda>e. sublist (toLowerCase s) (toLowerCase (name e))) xs"
  by (cases "s = []")
     (simp_all add: textPass_def truthy_string_def includes_str_sublist toLowerCase_def)

lemma earlyReturnGuard_False: "\<not> earlyReturnGuard sf s"
  by (simp add: earlyReturnGuard_def truthy_array_def)

lemma getFilteredEvents_passes:
  "getFilteredEvents es sf s = textPass s (domainPass sf (servicePass sf es))"
  by (simp add: getFilteredEvents_def earlyReturnGuard_False)

lemma getFilteredEvents_filter:
  "getFilteredEvents es sf s =
     filter (\<lambda>e. (services sf = [] \<or> (\<exists>p \<in> set (producerNames e). p \<in> set (services sf))
                    \<or> (\<exists>c \<in> set (consumerNames e). c \<in> set (services sf)))
                \<and> (domains sf = [] \<or> domain e \<in> set (domains sf))
                \<and> sublist (toLowerCase s) (toLowerCase (name e))) es"
  unfolding getFilteredEvents_passes servicePass_filter domainPass_filter textPass_filter
  by (auto intro: filter_cong)

lemma count_list_filter_le: "count_list (filter P xs) e \<le> count_list xs e"
  by (induction xs) auto

lemma servicePass_subseq: "subseq (servicePass sf xs) xs"
  by (simp add: servicePass_filter)

lemma domainPass_subseq: "subseq (domainPass sf xs) xs"
  by (simp add: domainPass_filter)

lemma textPass_subseq: "subseq (textPass s xs) xs"
  by (simp add: textPass_filter)

lemma computeVisible_spec_filter:
  "computeVisible_spec es sf t =
     filter (\<lambda>e. (services sf = [] \<or> (\<exists>p \<in> set (producerNames e). p \<in> set (services sf))
                    \<or> (\<exists>c \<in> set (consumerNames e). c \<in> set (services sf)))
                \<and> (domains sf = [] \<or> domain e \<in> set (domains sf))
                \<and> sublist (toLowerCase t) (toLowerCase (name e))) es"
  unfolding computeVisible_spec_def serviceFilter_spec_def domainFilter_spec_def
    textFilter_spec_def
  by (rule filter_cong) (auto simp: toLowerCase_def)

section \<open>Facts about the checkbox handler\<close>

lemma setSelected_selected: "selected ty (setSelected ty xs sf) = xs"
  by (cases ty) simp_all

lemma setSelected_twice: "setSelected ty xs (setSelected ty ys sf) = setSelected ty xs sf"
  by (cases ty) simp_all

lemma setSelected_same: "setSelected ty (selected ty sf) sf = sf"
  by (cases ty) simp_all

lemma filter_neq_absent: "v \<notin> set xs \<Longrightarrow> filter (\<lambda>x. x \<noteq> v) xs = xs"
  by (induction xs) auto

section \<open>Facts about the runtime model\<close>

lemma filter_rt_toRuntime:
  assumes "\<And>e. callback (toRuntime e) = Inr (p e)"
  shows "filter_rt callback (map toRuntime ys) = Inr (map toRuntime (filter p ys))"
  by (induction ys) (simp_all add: assms)

lemma toRuntime_toTyped: "wellFormed e \<Longrightarrow> toRuntime (toTyped e) = e"
  by (cases e) (auto simp: wellFormed_def toRuntime_def toTyped_def)

lemma map_toRuntime_toTyped:
  "\<forall>e \<in> set es. wellFormed e \<Longrightarrow> map toRuntime (map toTyped es) = es"
  by (induction es) (simp_all add: toRuntime_toTyped)

lemma serviceCallback_rt_toRuntime:
  "serviceCallback_rt sf (toRuntime e) =
     Inr (hasConsumersFromFilters sf e \<or> hasProducersFromFilters sf e)"
  by (simp add: serviceCallback_rt_def toRuntime_def
        hasConsumersFromFilters_def hasProducersFromFilters_def)

lemma domainCallback_rt_toRuntime:
  "domainCallback_rt sf (toRuntime e) = Inr (- 1 < indexOf (domains sf) (domain e))"
  by (simp add: domainCallback_rt_def toRuntime_def)

lemma textCallback_rt_toRuntime:
  "textCallback_rt s (toRuntime e) = Inr (includes_str (toLowerCase (name e)) (toLowerCase s))"
  by (simp add: textCallback_rt_def toRuntime_def)

lemma getFilteredEvents_rt_toRuntime:
  "getFilteredEvents_rt (map toRuntime ys) sf s = Inr (map toRuntime (getFilteredEvents ys sf s))"
proof -
  have a: "(if length (services sf) > 0
            then filter_rt (serviceCallback_rt sf) (map toRuntime ys)
            else Inr (map toRuntime ys)) = Inr (map toRuntime (servicePass sf ys))"
    by (simp add: servicePass_def
          filter_rt_toRuntime [of "serviceCallback_rt sf", OF serviceCallback_rt_toRuntime])
  have b: "(if length (domains sf) > 0
            then filter_rt (domainCallback_rt sf) (map toRuntime zs)
            else Inr (map toRuntime zs)) = Inr (map toRuntime (domainPass sf zs))" for zs
    by (simp add: domainPass_def
          filter_rt_toRuntime [of "domainCallback_rt sf", OF domainCallback_rt_toRuntime])
  have c: "(if truthy_string s
            then filter_rt (textCallback_rt s) (map toRuntime zs)
            else Inr (map toRuntime zs)) = Inr (map toRuntime (textPass s zs))" for zs
    by (simp add: textPass_def
          filter_rt_toRuntime [of "textCallback_rt s", OF textCallback_rt_toRuntime])
  show ?thesis
    by (simp only: getFilteredEvents_rt_def getFilteredEvents_passes earlyReturnGuard_False
          if_False a b c sum.case)
qed

lemma getFilteredEvents_rt_malformed:
  "getFilteredEvents_rt
     [\<lparr>nameProp = Some ''OrderCreated'', domainProp = Some ''Orders'',
       producerNamesProp = None, consumerNamesProp = Some []\<rparr>]
     \<lparr>services = [''BillingService''], domains = []\<rparr> [] = Inl TypeError"
  by (simp add: getFilteredEvents_rt_def earlyReturnGuard_False serviceCallback_rt_def)

section \<open>The service filter\<close>

text \<open>
  The engine conjoins its three filters, so an event that a selected service produces or
  consumes is still dropped when the domain filter or the text filter rejects it. In the
  example catalog, with the billing service selected and the search text "ship",
  OrderCreated is consumed by the billing service and is not in the result.
\<close>

theorem service_filter_completeness_counterexample:
  "services \<lparr>services = [''BillingService''], domains = []\<rparr> \<noteq> []
   \<and> orderCreated \<in> set exampleEvents
   \<and> ''BillingService'' \<in> set (consumerNames orderCreated)
   \<and> ''BillingService'' \<in> set (services \<lparr>services = [''BillingService''], domains = []\<rparr>)
   \<and> orderCreated \<notin> set (getFilteredEvents exampleEvents
                             \<lparr>services = [''BillingService''], domains = []\<rparr> ''ship'')"
proof -
  have "getFilteredEvents exampleEvents \<lparr>services = [''BillingService''], domains = []\<rparr> ''ship'' = []"
    by code_simp
  then show ?thesis
    by (simp add: exampleEvents_def orderCreated_def)
qed

text \<open>
  Claim C1, as the code has it. For every event list and every filter state with a
  non-empty service selection: every event of the result has a producer name or a
  consumer name among the selected services; every event of the list that has one, and
  that also passes the domain filter and the text filter where those are constrained, is
  in the result; and when no domain is selected and the search text is empty, the result
  is exactly the events of the list that have one, in their order.
\<close>

theorem service_filter_sound_and_complete:
  assumes "services sf \<noteq> []"
  shows "(\<forall>e \<in> set (getFilteredEvents es sf s).
            (\<exists>p \<in> set (producerNames e). p \<in> set (services sf))
            \<or> (\<exists>c \<in> set (consumerNames e). c \<in> set (services sf)))
       \<and> (\<forall>e \<in> set es.
            ((\<exists>p \<in> set (producerNames e). p \<in> set (services sf))
             \<or> (\<exists>c \<in> set (consumerNames e). c \<in> set (services sf)))
            \<and> (domains sf = [] \<or> domain e \<in> set (domains sf))
            \<and> (s = [] \<or> sublist (toLowerCase s) (toLowerCase (name e)))
            \<longrightarrow> e \<in> set (getFilteredEvents es sf s))
       \<and> (domains sf = [] \<and> s = [] \<longrightarrow>
            getFilteredEvents es sf s =
              filter (\<lambda>e. (\<exists>p \<in> set (producerNames e). p \<in> set (services sf))
                         \<or> (\<exists>c \<in> set (consumerNames e). c \<in> set (services sf))) es)"
proof (intro conjI)
  show "\<forall>e \<in> set (getFilteredEvents es sf s).
            (\<exists>p \<in> set (producerNames e). p \<in> set (services sf))
            \<or> (\<exists>c \<in> set (consumerNames e). c \<in> set (services sf))"
    using assms by (simp add: getFilteredEvents_filter)
next
  show "\<forall>e \<in> set es.
            ((\<exists>p \<in> set (producerNames e). p \<in> set (services sf))
             \<or> (\<exists>c \<in> set (consumerNames e). c \<in> set (services sf)))
            \<and> (domains sf = [] \<or> domain e \<in> set (domains sf))
            \<and> (s = [] \<or> sublist (toLowerCase s) (toLowerCase (name e)))
            \<longrightarrow> e \<in> set (getFilteredEvents es sf s)"
    by (auto simp: getFilteredEvents_filter toLowerCase_def)
next
  show "domains sf = [] \<and> s = [] \<longrightarrow>
            getFilteredEvents es sf s =
              filter (\<lambda>e. (\<exists>p \<in> set (producerNames e). p \<in> set (services sf))
                         \<or> (\<exists>c \<in> set (consumerNames e). c \<in> set (services sf))) es"
    using assms by (auto simp: getFilteredEvents_filter toLowerCase_def intro: filter_cong)
qed

theorem service_filter_sound_and_complete_witness:
  "services \<lparr>services = [''BillingService''], domains = []\<rparr> \<noteq> []
   \<and> getFilteredEvents exampleEvents \<lparr>services = [''BillingService''], domains = []\<rparr> []
       = filter (\<lambda>e. (\<exists>p \<in> set (producerNames e). p \<in> set [''BillingService''])
                    \<or> (\<exists>c \<in> set (consumerNames e). c \<in> set [''BillingService''])) exampleEvents
   \<and> getFilteredEvents exampleEvents \<lparr>services = [''BillingService''], domains = []\<rparr> []
       = [orderCreated]"
proof -
  have h: "services \<lparr>services = [''BillingService''], domains = []\<rparr> \<noteq> []" by simp
  have v: "getFilteredEvents exampleEvents \<lparr>services = [''BillingService''], domains = []\<rparr> []
       = [orderCreated]" by code_simp
  show ?thesis
    using h v service_filter_sound_and_complete [OF h, of exampleEvents "[]"]
    by simp
qed

section \<open>The filters compose conjunctively\<close>

text \<open>
  Claim C2. The engine's result is the event list filtered by membership in the three
  dimension filters of the specification, each counted only when its constraint is
  non-empty; as a set it is the intersection of the three filters' results; it is also the
  list filtered by membership in the results of the code's three passes run on the whole
  list. Being a filter of the list, it keeps the events in their original relative order.
\<close>

theorem getFilteredEvents_conjunction:
  "getFilteredEvents es sf s = computeVisible_spec es sf s
   \<and> set (getFilteredEvents es sf s) =
       (if services sf = [] then set es else set (serviceFilter_spec (services sf) es))
       \<inter> (if domains sf = [] then set es else set (domainFilter_spec (domains sf) es))
       \<inter> (if s = [] then set es else set (textFilter_spec s es))
   \<and> getFilteredEvents es sf s =
       filter (\<lambda>e. e \<in> set (servicePass sf es) \<and> e \<in> set (domainPass sf es)
                  \<and> e \<in> set (textPass s es)) es
   \<and> subseq (getFilteredEvents es sf s) es"
proof (intro conjI)
  show "getFilteredEvents es sf s = computeVisible_spec es sf s"
    by (simp add: getFilteredEvents_filter computeVisible_spec_filter)
next
  show "set (getFilteredEvents es sf s) =
       (if services sf = [] then set es else set (serviceFilter_spec (services sf) es))
       \<inter> (if domains sf = [] then set es else set (domainFilter_spec (domains sf) es))
       \<inter> (if s = [] then set es else set (textFilter_spec s es))"
    by (auto simp: getFilteredEvents_filter serviceFilter_spec_def domainFilter_spec_def
          textFilter_spec_def toLowerCase_def)
next
  show "getFilteredEvents es sf s =
       filter (\<lambda>e. e \<in> set (servicePass sf es) \<and> e \<in> set (domainPass sf es)
                  \<and> e \<in> set (textPass s es)) es"
    unfolding getFilteredEvents_filter servicePass_filter domainPass_filter textPass_filter
    by (rule filter_cong) auto
next
  show "subseq (getFilteredEvents es sf s) es"
    by (simp add: getFilteredEvents_filter)
qed

theorem getFilteredEvents_conjunction_witness:
  "getFilteredEvents exampleEvents
     \<lparr>services = [''BillingService'', ''ShippingService''], domains = [''Shipping'']\<rparr> ''ORDER''
     = computeVisible_spec exampleEvents
         \<lparr>services = [''BillingService'', ''ShippingService''], domains = [''Shipping'']\<rparr> ''ORDER''
   \<and> getFilteredEvents exampleEvents
     \<lparr>services = [''BillingService'', ''ShippingService''], domains = [''Shipping'']\<rparr> ''ORDER''
     = [orderShipped]"
proof -
  have "getFilteredEvents exampleEvents
     \<lparr>services = [''BillingService'', ''ShippingService''], domains = [''Shipping'']\<rparr> ''ORDER''
     = [orderShipped]"
    by code_simp
  then show ?thesis
    using getFilteredEvents_conjunction [of exampleEvents
       "\<lparr>services = [''BillingService'', ''ShippingService''], domains = [''Shipping'']\<rparr>"
       "''ORDER''"]
    by simp
qed

section \<open>Identity on an unconstrained state\<close>

text \<open>
  Claim C3. When no service and no domain is selected and the search text is empty, the
  engine returns the event list it was given, unchanged and in its order.
\<close>

theorem getFilteredEvents_identity:
  assumes "services sf = []" and "domains sf = []" and "s = []"
  shows "getFilteredEvents es sf s = es"
  using assms
  by (simp add: getFilteredEvents_passes servicePass_def domainPass_def textPass_def
        truthy_string_def)

theorem getFilteredEvents_identity_witness:
  "services noFilters = [] \<and> domains noFilters = []
   \<and> getFilteredEvents exampleEvents noFilters [] = exampleEvents"
  using getFilteredEvents_identity [of noFilters "[]" exampleEvents]
  by (simp add: noFilters_def)

section \<open>The domain filter\<close>

text \<open>
  An event whose domain is selected is still dropped when the service filter or the text
  filter rejects it. In the example catalog, with the domain Orders selected and the
  search text "ship", OrderCreated has a selected domain and is not in the result.
\<close>

theorem domain_filter_equality_counterexample:
  "domains \<lparr>services = [], domains = [''Orders'']\<rparr> \<noteq> []
   \<and> orderCreated \<in> set exampleEvents
   \<and> domain orderCreated \<in> set (domains \<lparr>services = [], domains = [''Orders'']\<rparr>)
   \<and> orderCreated \<notin> set (getFilteredEvents exampleEvents
                             \<lparr>services = [], domains = [''Orders'']\<rparr> ''ship'')"
proof -
  have "getFilteredEvents exampleEvents \<lparr>services = [], domains = [''Orders'']\<rparr> ''ship'' = []"
    by code_simp
  then show ?thesis
    by (simp add: exampleEvents_def orderCreated_def)
qed

text \<open>
  Claim C4, as the code has it. For every event list and every filter state with a
  non-empty domain selection: the result holds only events of the list whose domain is
  selected; it holds exactly those of them that also pass the service filter and the text
  filter where those are constrained; and when no service is selected and the search text
  is empty, it is exactly the events of the list whose domain is selected, in their order.
\<close>

theorem domain_filter_exact:
  assumes "domains sf \<noteq> []"
  shows "set (getFilteredEvents es sf s) \<subseteq> {e \<in> set es. domain e \<in> set (domains sf)}
       \<and> set (getFilteredEvents es sf s) =
           {e \<in> set es. domain e \<in> set (domains sf)
              \<and> (services sf = [] \<or> (\<exists>p \<in> set (producerNames e). p \<in> set (services sf))
                   \<or> (\<exists>c \<in> set (consumerNames e). c \<in> set (services sf)))
              \<and> (s = [] \<or> sublist (toLowerCase s) (toLowerCase (name e)))}
       \<and> (services sf = [] \<and> s = [] \<longrightarrow>
            getFilteredEvents es sf s = filter (\<lambda>e. domain e \<in> set (domains sf)) es
            \<and> set (getFilteredEvents es sf s) = {e \<in> set es. domain e \<in> set (domains sf)})"
proof (intro conjI)
  show "set (getFilteredEvents es sf s) \<subseteq> {e \<in> set es. domain e \<in> set (domains sf)}"
    using assms by (auto simp: getFilteredEvents_filter)
next
  show "set (getFilteredEvents es sf s) =
           {e \<in> set es. domain e \<in> set (domains sf)
              \<and> (services sf = [] \<or> (\<exists>p \<in> set (producerNames e). p \<in> set (services sf))
                   \<or> (\<exists>c \<in> set (consumerNames e). c \<in> set (services sf)))
              \<and> (s = [] \<or> sublist (toLowerCase s) (toLowerCase (name e)))}"
    using assms by (auto simp: getFilteredEvents_filter toLowerCase_def)
next
  show "services sf = [] \<and> s = [] \<longrightarrow>
            getFilteredEvents es sf s = filter (\<lambda>e. domain e \<in> set (domains sf)) es
            \<and> set (getFilteredEvents es sf s) = {e \<in> set es. domain e \<in> set (domains sf)}"
    using assms by (auto simp: getFilteredEvents_filter toLowerCase_def)
qed

theorem domain_filter_exact_witness:
  "domains \<lparr>services = [], domains = [''Shipping'']\<rparr> \<noteq> []
   \<and> set (getFilteredEvents exampleEvents \<lparr>services = [], domains = [''Shipping'']\<rparr> [])
       = {e \<in> set exampleEvents. domain e \<in> set [''Shipping'']}
   \<and> getFilteredEvents exampleEvents \<lparr>services = [], domains = [''Shipping'']\<rparr> []
       = [orderShipped]"
proof -
  have h: "domains \<lparr>services = [], domains = [''Shipping'']\<rparr> \<noteq> []" by simp
  have v: "getFilteredEvents exampleEvents \<lparr>services = [], domains = [''Shipping'']\<rparr> []
       = [orderShipped]" by code_simp
  from domain_filter_exact [OF h, of exampleEvents "[]"]
  have "set (getFilteredEvents exampleEvents \<lparr>services = [], domains = [''Shipping'']\<rparr> [])
       = {e \<in> set exampleEvents. domain e \<in> set [''Shipping'']}"
    by simp
  with h v show ?thesis by simp
qed

section \<open>The text filter\<close>

text \<open>
  Claim C5. Two search texts with the same lower-casing (case variants of each other,
  such as "SHIP" and "ship") give the same result on every event list and every
  selection. An event survives the text pass exactly when the lower-casing of its name
  contains the lower-casing of the search text as a substring; this also holds for the
  empty search text, which every name contains.
\<close>

theorem text_filter_case_insensitive:
  "(toLowerCase s = toLowerCase s' \<longrightarrow>
      getFilteredEvents es sf s = getFilteredEvents es sf s')
   \<and> (e \<in> set (textPass s xs) \<longleftrightarrow>
        e \<in> set xs \<and> (\<exists>ps ss. toLowerCase (name e) = ps @ toLowerCase s @ ss))
   \<and> (e \<in> set (getFilteredEvents es sf s) \<longrightarrow>
        (\<exists>ps ss. toLowerCase (name e) = ps @ toLowerCase s @ ss))"
proof (intro conjI)
  show "toLowerCase s = toLowerCase s' \<longrightarrow>
      getFilteredEvents es sf s = getFilteredEvents es sf s'"
    by (simp add: getFilteredEvents_filter)
next
  show "e \<in> set (textPass s xs) \<longleftrightarrow>
        e \<in> set xs \<and> (\<exists>ps ss. toLowerCase (name e) = ps @ toLowerCase s @ ss)"
    by (simp add: textPass_filter sublist_def)
next
  show "e \<in> set (getFilteredEvents es sf s) \<longrightarrow>
        (\<exists>ps ss. toLowerCase (name e) = ps @ toLowerCase s @ ss)"
    by (simp add: getFilteredEvents_filter sublist_def)
qed

theorem text_filter_case_insensitive_witness:
  "toLowerCase ''SHIP'' = toLowerCase ''ship''
   \<and> getFilteredEvents exampleEvents noFilters ''SHIP''
       = getFilteredEvents exampleEvents noFilters ''ship''
   \<and> getFilteredEvents exampleEvents noFilters ''SHIP'' = [orderShipped]
   \<and> toLowerCase (name orderShipped) = ''order'' @ toLowerCase ''SHIP'' @ ''ped''"
proof -
  have h: "toLowerCase ''SHIP'' = toLowerCase ''ship''" by code_simp
  have v: "getFilteredEvents exampleEvents noFilters ''SHIP'' = [orderShipped]" by code_simp
  have w: "toLowerCase (name orderShipped) = ''order'' @ toLowerCase ''SHIP'' @ ''ped''"
    by code_simp
  from text_filter_case_insensitive [of "''SHIP''" "''ship''" exampleEvents noFilters] h
  have "getFilteredEvents exampleEvents noFilters ''SHIP''
       = getFilteredEvents exampleEvents noFilters ''ship''"
    by blast
  with h v w show ?thesis by blast
qed

section \<open>The "filters applied" flag\<close>

text \<open>
  Claim C6. The flag is true exactly when the search text is non-empty or a service is
  selected. A state with selected domains only, no service and an empty search text,
  leaves it false.
\<close>

theorem filtersApplied_iff:
  "filtersApplied sf s = (s \<noteq> [] \<or> services sf \<noteq> [])
   \<and> \<not> filtersApplied (sf\<lparr>services := [], domains := ds\<rparr>) []
   \<and> (services sf \<noteq> [] \<longrightarrow> filtersApplied sf s)
   \<and> (s \<noteq> [] \<longrightarrow> filtersApplied sf s)"
  by (simp add: filtersApplied_def truthy_string_def)

theorem filtersApplied_iff_witness:
  "\<not> filtersApplied \<lparr>services = [], domains = [''Orders'']\<rparr> []
   \<and> filtersApplied \<lparr>services = [''BillingService''], domains = []\<rparr> []
   \<and> filtersApplied \<lparr>services = [], domains = []\<rparr> ''ship''"
  using filtersApplied_iff [of "\<lparr>services = [], domains = [''Orders'']\<rparr>" "[]" "[''Orders'']"]
    filtersApplied_iff [of "\<lparr>services = [''BillingService''], domains = []\<rparr>" "[]"]
    filtersApplied_iff [of "\<lparr>services = [], domains = []\<rparr>" "''ship''"]
  by simp

section \<open>Toggling a checkbox twice\<close>

text \<open>
  Claim C7. For either filter section, when the value is not yet selected, checking it
  and then unchecking it restores the selection of that section, the whole filter state
  and hence the engine's result on every event list and search text. After the first
  step the value is selected.
\<close>

theorem toggle_round_trip:
  assumes "v \<notin> set (selected ty sf)"
  shows "selected ty (handleFilterSelection v ty False (handleFilterSelection v ty True sf))
           = selected ty sf
       \<and> handleFilterSelection v ty False (handleFilterSelection v ty True sf) = sf
       \<and> getFilteredEvents es
            (handleFilterSelection v ty False (handleFilterSelection v ty True sf)) s
           = getFilteredEvents es sf s
       \<and> v \<in> set (selected ty (handleFilterSelection v ty True sf))"
proof -
  have restored: "handleFilterSelection v ty False (handleFilterSelection v ty True sf) = sf"
    using assms
    by (simp add: handleFilterSelection_def setSelected_selected setSelected_twice
          filter_neq_absent setSelected_same)
  have "v \<in> set (selected ty (handleFilterSelection v ty True sf))"
    by (simp add: handleFilterSelection_def setSelected_selected)
  with restored show ?thesis by simp
qed

theorem toggle_round_trip_witness:
  "''ShippingService'' \<notin> set (selected ServicesSection \<lparr>services = [''BillingService''], domains = []\<rparr>)
   \<and> handleFilterSelection ''ShippingService'' ServicesSection True
        \<lparr>services = [''BillingService''], domains = []\<rparr>
       = \<lparr>services = [''BillingService'', ''ShippingService''], domains = []\<rparr>
   \<and> handleFilterSelection ''ShippingService'' ServicesSection False
        (handleFilterSelection ''ShippingService'' ServicesSection True
           \<lparr>services = [''BillingService''], domains = []\<rparr>)
       = \<lparr>services = [''BillingService''], domains = []\<rparr>
   \<and> ''Orders'' \<notin> set (selected DomainsSection noFilters)
   \<and> handleFilterSelection ''Orders'' DomainsSection False
        (handleFilterSelection ''Orders'' DomainsSection True noFilters) = noFilters"
proof -
  have h1: "''ShippingService'' \<notin> set (selected ServicesSection \<lparr>services = [''BillingService''], domains = []\<rparr>)"
    by simp
  have h2: "''Orders'' \<notin> set (selected DomainsSection noFilters)"
    by (simp add: noFilters_def)
  have "handleFilterSelection ''ShippingService'' ServicesSection True
        \<lparr>services = [''BillingService''], domains = []\<rparr>
       = \<lparr>services = [''BillingService'', ''ShippingService''], domains = []\<rparr>"
    by (simp add: handleFilterSelection_def)
  with h1 h2 toggle_round_trip [OF h1, of exampleEvents "[]"]
    toggle_round_trip [OF h2, of exampleEvents "[]"]
  show ?thesis by simp
qed

section \<open>No error on well-formed events\<close>

text \<open>
  Claim C8. On a list of well-formed events the engine, run as the JavaScript runtime
  runs it, throws no error for any filter state: it returns a list, a subsequence of its
  input, and that list is the one the typed engine computes. The result is a function of
  the event list and the filter state alone. (On an event without its producer list the
  service pass does throw, see \<open>getFilteredEvents_rt_malformed\<close>.)
\<close>

theorem getFilteredEvents_rt_total:
  assumes "\<forall>e \<in> set es. wellFormed e"
  shows "getFilteredEvents_rt es sf s
           = Inr (map toRuntime (getFilteredEvents (map toTyped es) sf s))
       \<and> (\<exists>r. getFilteredEvents_rt es sf s = Inr r \<and> subseq r es)"
proof -
  have r: "map toRuntime (map toTyped es) = es"
    using assms by (rule map_toRuntime_toTyped)
  have "getFilteredEvents_rt (map toRuntime (map toTyped es)) sf s
           = Inr (map toRuntime (getFilteredEvents (map toTyped es) sf s))"
    by (rule getFilteredEvents_rt_toRuntime)
  then have eq: "getFilteredEvents_rt es sf s
           = Inr (map toRuntime (getFilteredEvents (map toTyped es) sf s))"
    by (simp only: r)
  have "subseq (map toRuntime (getFilteredEvents (map toTyped es) sf s))
          (map toRuntime (map toTyped es))"
    by (intro subseq_map) (simp add: getFilteredEvents_filter)
  then have "subseq (map toRuntime (getFilteredEvents (map toTyped es) sf s)) es"
    by (simp only: r)
  with eq show ?thesis by simp
qed

theorem getFilteredEvents_rt_total_witness:
  "wellFormed (toRuntime orderCreated) \<and> wellFormed (toRuntime orderShipped)
   \<and> getFilteredEvents_rt [toRuntime orderCreated, toRuntime orderShipped]
        \<lparr>services = [''ShippingService''], domains = [''Shipping'']\<rparr> ''SHIP''
       = Inr [toRuntime orderShipped]"
proof -
  have h: "\<forall>e \<in> set [toRuntime orderCreated, toRuntime orderShipped]. wellFormed e"
    by (simp add: wellFormed_def toRuntime_def)
  have t: "[toTyped (toRuntime orderCreated), toTyped (toRuntime orderShipped)] = exampleEvents"
    by (simp add: toTyped_def toRuntime_def exampleEvents_def)
  have v: "getFilteredEvents exampleEvents
        \<lparr>services = [''ShippingService''], domains = [''Shipping'']\<rparr> ''SHIP'' = [orderShipped]"
    by code_simp
  from getFilteredEvents_rt_total [OF h,
      of "\<lparr>services = [''ShippingService''], domains = [''Shipping'']\<rparr>" "''SHIP''"]
  have "getFilteredEvents_rt [toRuntime orderCreated, toRuntime orderShipped]
        \<lparr>services = [''ShippingService''], domains = [''Shipping'']\<rparr> ''SHIP''
       = Inr [toRuntime orderShipped]"
    by (simp add: t v)
  with h show ?thesis by simp
qed

section \<open>The early return is dead code\<close>

text \<open>
  Claim C9. The two selections are arrays and therefore truthy, so the guard of the early
  return is false in every state; the engine equals the same function without that
  branch. On an unconstrained state each of the three passes is skipped and returns its
  input, which is where the identity comes from.
\<close>

theorem early_return_unreachable:
  "truthy_array (services sf) \<and> truthy_array (domains sf)
   \<and> \<not> earlyReturnGuard sf s
   \<and> getFilteredEvents es sf s = getFilteredEvents_noEarlyReturn es sf s
   \<and> (services sf = [] \<and> domains sf = [] \<and> s = [] \<longrightarrow>
        servicePass sf xs = xs \<and> domainPass sf xs = xs \<and> textPass s xs = xs
        \<and> getFilteredEvents_noEarlyReturn es sf s = es)"
  by (simp add: truthy_array_def earlyReturnGuard_False getFilteredEvents_passes
        getFilteredEvents_noEarlyReturn_def servicePass_def domainPass_def textPass_def
        truthy_string_def)

theorem early_return_unreachable_witness:
  "\<not> earlyReturnGuard noFilters []
   \<and> getFilteredEvents exampleEvents noFilters []
       = getFilteredEvents_noEarlyReturn exampleEvents noFilters []
   \<and> servicePass noFilters exampleEvents = exampleEvents
   \<and> domainPass noFilters exampleEvents = exampleEvents
   \<and> textPass [] exampleEvents = exampleEvents
   \<and> getFilteredEvents_noEarlyReturn exampleEvents noFilters [] = exampleEvents"
  using early_return_unreachable [of noFilters "[]" exampleEvents exampleEvents]
  by (simp add: noFilters_def)

section \<open>The result is a subsequence of the input\<close>

text \<open>
  Claim C10. The engine's result is a subsequence of the event list: every event of the
  result occurs in the list, no event occurs more often in the result than in the list,
  and the result is no longer than the list. Each of the three passes returns a
  subsequence of what it receives.
\<close>

theorem getFilteredEvents_subsequence:
  "subseq (getFilteredEvents es sf s) es
   \<and> set (getFilteredEvents es sf s) \<subseteq> set es
   \<and> (\<forall>e. count_list (getFilteredEvents es sf s) e \<le> count_list es e)
   \<and> length (getFilteredEvents es sf s) \<le> length es
   \<and> subseq (servicePass sf xs) xs
   \<and> subseq (domainPass sf xs) xs
   \<and> subseq (textPass s xs) xs"
proof -
  have "subseq (getFilteredEvents es sf s) es"
    by (simp add: getFilteredEvents_filter)
  moreover have "set (getFilteredEvents es sf s) \<subseteq> set es"
    by (simp add: getFilteredEvents_filter)
  moreover have "\<forall>e. count_list (getFilteredEvents es sf s) e \<le> count_list es e"
    by (simp add: getFilteredEvents_filter count_list_filter_le)
  moreover have "length (getFilteredEvents es sf s) \<le> length es"
    by (simp add: getFilteredEvents_filter)
  ultimately show ?thesis
    by (simp add: servicePass_subseq domainPass_subseq textPass_subseq)
qed

theorem getFilteredEvents_subsequence_witness:
  "subseq (getFilteredEvents exampleEvents \<lparr>services = [''BillingService''], domains = []\<rparr> ''order'')
     exampleEvents
   \<and> getFilteredEvents exampleEvents \<lparr>services = [''BillingService''], domains = []\<rparr> ''order''
       = [orderCreated]
   \<and> length (getFilteredEvents exampleEvents \<lparr>services = [''BillingService''], domains = []\<rparr> ''order'')
       \<le> length exampleEvents"
proof -
  have "getFilteredEvents exampleEvents \<lparr>services = [''BillingService''], domains = []\<rparr> ''order''
          = [orderCreated]"
    by code_simp
  then show ?thesis
    using getFilteredEvents_subsequence
      [of exampleEvents "\<lparr>services = [''BillingService''], domains = []\<rparr>" "''order''"
          exampleEvents]
    by simp
qed

end
